theory Spec2Isabelle
  imports Complex_Main "HOL-Library.Sublist"
begin

section \<open>Exceptions and Python arithmetic\<close>

text \<open>
  The exceptions the modelled code can raise. \<open>ValueError\<close> carries the message the
  source builds; the other three are raised by the interpreter (\<open>bbox[2]\<close> on a short
  sequence, an \<open>int / int\<close> quotient beyond the range of a float) or by the abstract
  \<open>Transcriber.listen\<close>.
\<close>

datatype error =
    ValueError string
  | IndexError
  | OverflowError
  | NotImplementedError string

text \<open>
  \<open>xs[i]\<close> for a literal index \<open>i \<ge> 0\<close>: Python raises IndexError out of range.
\<close>

definition getitem :: "'a list \<Rightarrow> nat \<Rightarrow> error + 'a" where
  "getitem xs i = (if i < length xs then Inr (xs ! i) else Inl IndexError)"

text \<open>
  \<open>int.bit_length()\<close> on a non-negative integer.
\<close>

function bit_length :: "int \<Rightarrow> nat" where
  "bit_length n = (if n \<le> 0 then 0 else Suc (bit_length (n div 2)))"
  by pat_completeness auto
termination
  by (relation "measure nat") auto

declare bit_length.simps [simp del]

text \<open>
  Python's \<open>a / 2\<close> on an \<open>int\<close> is true division: the result is the IEEE binary64
  number nearest to the exact quotient, ties to even, and OverflowError when that number
  would be \<open>2 ^ 1024\<close> or more in magnitude. Halving only changes the exponent, so the
  quotient is the operand rounded to 53 significant bits, halved. A float is represented
  here by the rational number it denotes.
\<close>

definition round_to_53 :: "int \<Rightarrow> int" where
  "round_to_53 a =
     (let m = \<bar>a\<bar> in
      if m < 2 ^ 53 then a
      else
        let k = bit_length m - 53;
            q = m div 2 ^ k;
            r = m mod 2 ^ k;
            h = 2 ^ (k - 1);
            q' = (if h < r \<or> (r = h \<and> odd q) then q + 1 else q)
        in sgn a * (q' * 2 ^ k))"

definition py_truediv2 :: "int \<Rightarrow> error + rat" where
  "py_truediv2 a =
     (let v = round_to_53 a in
      if 2 ^ 1025 \<le> \<bar>v\<bar> then Inl OverflowError else Inr (of_int v / 2))"

section \<open>navigation.py\<close>

record Obstacle =
  bbox :: "int list"
  label :: string
  confidence :: rat

datatype Frame = Frame

record GuidanceResult =
  direction :: string
  obstacles :: "Obstacle list"

text \<open>
  \<open>NavigationAssistant\<close>: the detector capability is the function its \<open>detect\<close>
  computes, the camera the frame its \<open>get_frame\<close> returns. The audio output is shared
  between the assistants of the demo, so it is not a field: \<open>process_frame\<close> takes the
  audio state and returns it updated.
\<close>

record NavigationAssistant =
  nav_camera :: Frame
  nav_detector :: "Frame \<Rightarrow> Obstacle list"
  nav_frame_width :: int

definition NavigationAssistant_init ::
  "Frame \<Rightarrow> (Frame \<Rightarrow> Obstacle list) \<Rightarrow> int \<Rightarrow> error + NavigationAssistant" where
  "NavigationAssistant_init camera detector frame_width =
     (if frame_width \<le> 0 then Inl (ValueError ''frame_width must be positive'')
      else Inr \<lparr>nav_camera = camera, nav_detector = detector,
                nav_frame_width = frame_width\<rparr>)"

text \<open>
  \<open>center_x = (obstacle.bbox[0] + obstacle.bbox[2]) / 2\<close>
\<close>

definition center_x :: "Obstacle \<Rightarrow> error + rat" where
  "center_x obstacle =
     (case getitem (bbox obstacle) 0 of
        Inl e \<Rightarrow> Inl e
      | Inr x0 \<Rightarrow>
          (case getitem (bbox obstacle) 2 of
             Inl e \<Rightarrow> Inl e
           | Inr x2 \<Rightarrow> py_truediv2 (x0 + x2)))"

text \<open>
  The \<open>for\<close> loop of \<open>_compute_guidance\<close>, with the two counters as the loop state.
\<close>

fun guidance_loop :: "int \<Rightarrow> Obstacle list \<Rightarrow> nat \<times> nat \<Rightarrow> error + nat \<times> nat" where
  "guidance_loop fw [] (left_count, right_count) = Inr (left_count, right_count)"
| "guidance_loop fw (obstacle # rest) (left_count, right_count) =
     (case center_x obstacle of
        Inl e \<Rightarrow> Inl e
      | Inr c \<Rightarrow>
          (case py_truediv2 fw of
             Inl e \<Rightarrow> Inl e
           | Inr half \<Rightarrow>
               if c < half then guidance_loop fw rest (left_count + 1, right_count)
               else guidance_loop fw rest (left_count, right_count + 1)))"

definition compute_guidance :: "NavigationAssistant \<Rightarrow> Obstacle list \<Rightarrow> error + string" where
  "compute_guidance self obs =
     (if obs = [] then Inr ''forward''
      else
        (case guidance_loop (nav_frame_width self) obs (0, 0) of
           Inl e \<Rightarrow> Inl e
         | Inr (left_count, right_count) \<Rightarrow>
             if left_count > right_count then Inr ''right''
             else if right_count > left_count then Inr ''left''
             else Inr ''forward''))"

text \<open>
  The free function \<open>choose_direction_from_obstacles\<close> has its own copy of the loop.
\<close>

fun choose_loop :: "int \<Rightarrow> Obstacle list \<Rightarrow> nat \<times> nat \<Rightarrow> error + nat \<times> nat" where
  "choose_loop frame_width [] (left_count, right_count) = Inr (left_count, right_count)"
| "choose_loop frame_width (obstacle # rest) (left_count, right_count) =
     (case center_x obstacle of
        Inl e \<Rightarrow> Inl e
      | Inr c \<Rightarrow>
          (case py_truediv2 frame_width of
             Inl e \<Rightarrow> Inl e
           | Inr half \<Rightarrow>
               if c < half then choose_loop frame_width rest (left_count + 1, right_count)
               else choose_loop frame_width rest (left_count, right_count + 1)))"

definition choose_direction_from_obstacles :: "Obstacle list \<Rightarrow> int \<Rightarrow> error + string" where
  "choose_direction_from_obstacles obs frame_width =
     (if frame_width \<le> 0 then Inl (ValueError ''frame_width must be positive'')
      else if obs = [] then Inr ''forward''
      else
        (case choose_loop frame_width obs (0, 0) of
           Inl e \<Rightarrow> Inl e
         | Inr (left_count, right_count) \<Rightarrow>
             if left_count > right_count then Inr ''right''
             else if right_count > left_count then Inr ''left''
             else Inr ''forward''))"

text \<open>
  Modelled from the spec: \<open>DummyAudioOutput\<close> and \<open>DummyObstacleDetector\<close> are
  imported by \<open>main.py\<close> from a module that is not among the sources. The spec has the
  audio capability of the harness record every emitted message in an ordered log, and
  has every backend return fixed, pre-scripted data (as \<open>DummyObjectDetector\<close> and
  \<open>DummyOcrEngine\<close> do in the sources).
\<close>

record DummyAudioOutput =
  messages :: "string list"

definition DummyAudioOutput_init :: DummyAudioOutput where
  "DummyAudioOutput_init = \<lparr>messages = []\<rparr>"

definition speak :: "DummyAudioOutput \<Rightarrow> string \<Rightarrow> DummyAudioOutput" where
  "speak audio message = audio\<lparr>messages := messages audio @ [message]\<rparr>"

definition DummyObstacleDetector :: "Obstacle list \<Rightarrow> Frame \<Rightarrow> Obstacle list" where
  "DummyObstacleDetector obs frame = obs"

definition nav_process_frame ::
  "NavigationAssistant \<Rightarrow> DummyAudioOutput \<Rightarrow> error + GuidanceResult \<times> DummyAudioOutput" where
  "nav_process_frame self audio =
     (let frame = nav_camera self;
          obs = nav_detector self frame
      in case compute_guidance self obs of
           Inl e \<Rightarrow> Inl e
         | Inr d \<Rightarrow> Inr (\<lparr>direction = d, obstacles = obs\<rparr>, speak audio d))"

section \<open>Python strings\<close>

text \<open>
  A \<open>str\<close> is modelled as a list of characters with code points below 256.
  \<open>str.lower\<close> maps the upper-case letters of that range (A to Z, and the accented
  capitals 192 to 214 and 216 to 222) to the code point 32 above;
  \<open>str.isspace\<close> holds of tab to carriage return, the separators 28 to 31, the
  space, NEL (133) and the no-break space (160).
\<close>

definition py_lower_char :: "char \<Rightarrow> char" where
  "py_lower_char c =
     (let n = (of_char c :: nat) in
      if (65 \<le> n \<and> n \<le> 90) \<or> (192 \<le> n \<and> n \<le> 214) \<or> (216 \<le> n \<and> n \<le> 222)
      then char_of (n + 32) else c)"

definition py_lower :: "string \<Rightarrow> string" where
  "py_lower s = map py_lower_char s"

definition py_isspace :: "char \<Rightarrow> bool" where
  "py_isspace c =
     (let n = (of_char c :: nat) in
      (9 \<le> n \<and> n \<le> 13) \<or> (28 \<le> n \<and> n \<le> 32) \<or> n = 133 \<or> n = 160)"

text \<open>
  \<open>s.split()\<close>: one scan, cutting at every run of whitespace; \<open>word\<close> holds the
  characters of the current word, last first.
\<close>

fun split_loop :: "string \<Rightarrow> string \<Rightarrow> string list" where
  "split_loop [] word = (if word = [] then [] else [rev word])"
| "split_loop (c # cs) word =
     (if py_isspace c then
        (if word = [] then split_loop cs [] else rev word # split_loop cs [])
      else split_loop cs (c # word))"

definition py_split :: "string \<Rightarrow> string list" where
  "py_split s = split_loop s []"

fun py_join :: "string \<Rightarrow> string list \<Rightarrow> string" where
  "py_join sep [] = []"
| "py_join sep [w] = w"
| "py_join sep (w # ws) = w @ sep @ py_join sep ws"

definition py_strip :: "string \<Rightarrow> string" where
  "py_strip s = rev (dropWhile py_isspace (rev (dropWhile py_isspace s)))"

text \<open>
  \<open>phrase in transcript\<close>: the phrase starts at some position of the transcript.
\<close>

fun str_contains :: "string \<Rightarrow> string \<Rightarrow> bool" where
  "str_contains phrase [] = (phrase = [])"
| "str_contains phrase (c # cs) = (prefix phrase (c # cs) \<or> str_contains phrase cs)"

section \<open>voice\_assistance.py\<close>

definition MODES :: "string list" where
  "MODES = [''navigation'', ''object_detection'', ''reading'']"

text \<open>
  A \<open>dict\<close> iterates in insertion order, and \<open>_match_mode\<close> depends on that order:
  the phrase table is an association list.
\<close>

record CommandConfig =
  phrases_by_mode :: "(string \<times> string list) list"

definition default_phrases_by_mode :: "(string \<times> string list) list" where
  "default_phrases_by_mode =
     [(''navigation'',
         [''navigation mode'', ''switch to navigation'', ''navigation'']),
      (''object_detection'',
         [''object detection mode'', ''switch to object detection'', ''object detection'',
          ''object mode'']),
      (''reading'',
         [''reading mode'', ''switch to reading'', ''reading'', ''read mode''])]"

text \<open>
  \<open>__post_init__\<close>: the first key outside \<open>MODES\<close> raises.
\<close>

fun post_init :: "(string \<times> string list) list \<Rightarrow> error + unit" where
  "post_init [] = Inr ()"
| "post_init ((mode, phrases) # rest) =
     (if mode \<notin> set MODES then Inl (ValueError (''Unsupported mode: '' @ mode))
      else post_init rest)"

definition CommandConfig_init :: "(string \<times> string list) list option \<Rightarrow> error + CommandConfig" where
  "CommandConfig_init table =
     (let t = (case table of None \<Rightarrow> default_phrases_by_mode | Some t \<Rightarrow> t)
      in case post_init t of
           Inl e \<Rightarrow> Inl e
         | Inr _ \<Rightarrow> Inr \<lparr>phrases_by_mode = t\<rparr>)"

record ModeSwitchResult =
  transcript :: string
  matched_command :: "string option"
  result_active_mode :: string

text \<open>
  The base class \<open>Transcriber\<close>, whose \<open>listen\<close> raises, and its one subclass, the
  \<open>ScriptedTranscriber\<close> of \<open>main.py\<close> with its list of transcripts and its index.
\<close>

datatype Transcriber =
    Transcriber
  | ScriptedTranscriber "string list" nat

fun listen :: "Transcriber \<Rightarrow> error + string \<times> Transcriber" where
  "listen Transcriber = Inl (NotImplementedError ''Transcriber.listen must be implemented'')"
| "listen (ScriptedTranscriber transcripts index) =
     (if index \<ge> length transcripts then Inr ([], ScriptedTranscriber transcripts index)
      else Inr (transcripts ! index, ScriptedTranscriber transcripts (index + 1)))"

record VoiceAssistant =
  transcriber :: Transcriber
  command_config :: CommandConfig
  active_mode :: string

definition VoiceAssistant_init ::
  "Transcriber \<Rightarrow> CommandConfig option \<Rightarrow> string \<Rightarrow> error + VoiceAssistant" where
  "VoiceAssistant_init tr cfg initial_mode =
     (if initial_mode \<notin> set MODES
      then Inl (ValueError (''Unsupported initial mode: '' @ initial_mode))
      else
        (case cfg of
           Some c \<Rightarrow>
             Inr \<lparr>transcriber = tr, command_config = c, active_mode = initial_mode\<rparr>
         | None \<Rightarrow>
             (case CommandConfig_init None of
                Inl e \<Rightarrow> Inl e
              | Inr c \<Rightarrow>
                  Inr \<lparr>transcriber = tr, command_config = c,
                       active_mode = initial_mode\<rparr>)))"

text \<open>
  \<open>_match_mode\<close>: the inner loop over the phrases of one mode, then the outer loop
  over the modes; the first phrase found in the transcript returns its mode.
\<close>

fun any_phrase_in :: "string list \<Rightarrow> string \<Rightarrow> bool" where
  "any_phrase_in [] t = False"
| "any_phrase_in (phrase # rest) t = (if str_contains phrase t then True else any_phrase_in rest t)"

fun match_loop :: "(string \<times> string list) list \<Rightarrow> string \<Rightarrow> string option" where
  "match_loop [] t = None"
| "match_loop ((mode, phrases) # rest) t =
     (if any_phrase_in phrases t then Some mode else match_loop rest t)"

definition match_mode :: "VoiceAssistant \<Rightarrow> string \<Rightarrow> string option" where
  "match_mode self t = match_loop (phrases_by_mode (command_config self)) t"

definition normalize :: "string \<Rightarrow> string" where
  "normalize t = py_join '' '' (py_split (py_lower t))"

text \<open>
  \<open>handle_transcript\<close>; \<open>if matched_mode:\<close> is false of \<open>None\<close> and of the empty
  string.
\<close>

definition handle_transcript ::
  "VoiceAssistant \<Rightarrow> string \<Rightarrow> ModeSwitchResult \<times> VoiceAssistant" where
  "handle_transcript self t =
     (let normalized = normalize t;
          matched_mode = match_mode self normalized;
          self' = (case matched_mode of
                     None \<Rightarrow> self
                   | Some m \<Rightarrow> if m \<noteq> [] then self\<lparr>active_mode := m\<rparr> else self)
      in (\<lparr>transcript = t, matched_command = matched_mode,
            result_active_mode = active_mode self'\<rparr>, self'))"

text \<open>
  \<open>listen_and_handle\<close>; the \<open>audio_source\<close> argument is only passed on to the
  transcriber, which ignores it.
\<close>

definition listen_and_handle :: "VoiceAssistant \<Rightarrow> error + ModeSwitchResult \<times> VoiceAssistant" where
  "listen_and_handle self =
     (case listen (transcriber self) of
        Inl e \<Rightarrow> Inl e
      | Inr (t, tr') \<Rightarrow> Inr (handle_transcript (self\<lparr>transcriber := tr'\<rparr>) t))"

section \<open>object\_detection.py\<close>

record DetectedObject =
  object_label :: string
  object_bbox :: "int list"
  object_confidence :: rat

definition DummyObjectDetector :: "DetectedObject list option \<Rightarrow> Frame \<Rightarrow> DetectedObject list" where
  "DummyObjectDetector objs frame = (case objs of None \<Rightarrow> [] | Some os \<Rightarrow> os)"

record DetectionResult =
  objects :: "DetectedObject list"

record ObjectDetectionAssistant =
  det_camera :: Frame
  det_detector :: "Frame \<Rightarrow> DetectedObject list"

fun announce_loop :: "DetectedObject list \<Rightarrow> DummyAudioOutput \<Rightarrow> DummyAudioOutput" where
  "announce_loop [] audio = audio"
| "announce_loop (detected # rest) audio = announce_loop rest (speak audio (object_label detected))"

definition announce :: "DetectedObject list \<Rightarrow> DummyAudioOutput \<Rightarrow> DummyAudioOutput" where
  "announce objs audio =
     (if objs = [] then speak audio ''no objects detected'' else announce_loop objs audio)"

definition det_process_frame ::
  "ObjectDetectionAssistant \<Rightarrow> DummyAudioOutput \<Rightarrow> DetectionResult \<times> DummyAudioOutput" where
  "det_process_frame self audio =
     (let frame = det_camera self;
          objs = det_detector self frame
      in (\<lparr>objects = objs\<rparr>, announce objs audio))"

section \<open>reading\_module.py\<close>

definition DummyOcrEngine :: "string \<Rightarrow> Frame \<Rightarrow> string" where
  "DummyOcrEngine txt frame = txt"

record ReadingResult =
  result_text :: string

record ReadingAssistant =
  read_camera :: Frame
  read_ocr_engine :: "Frame \<Rightarrow> string"
  read_fallback_message :: "string option"

text \<open>
  \<open>process_frame\<close>: \<open>if text:\<close> is false of the empty string, and
  \<open>elif self._fallback_message:\<close> is false of \<open>None\<close> and of the empty string.
\<close>

definition read_process_frame ::
  "ReadingAssistant \<Rightarrow> DummyAudioOutput \<Rightarrow> ReadingResult \<times> DummyAudioOutput" where
  "read_process_frame self audio =
     (let frame = read_camera self;
          txt = py_strip (read_ocr_engine self frame);
          audio' =
            (if txt \<noteq> [] then speak audio txt
             else
               (case read_fallback_message self of
                  None \<Rightarrow> audio
                | Some fb \<Rightarrow> if fb \<noteq> [] then speak audio fb else audio))
      in (\<lparr>result_text = txt\<rparr>, audio'))"

section \<open>main.py\<close>

definition DummyCamera_get_frame :: Frame where
  "DummyCamera_get_frame = Frame"

definition build_navigation_assistant :: "Frame \<Rightarrow> error + NavigationAssistant" where
  "build_navigation_assistant camera =
     NavigationAssistant_init camera
       (DummyObstacleDetector
          [\<lparr>bbox = [20, 0, 80, 60], label = ''chair'', confidence = 91 / 100\<rparr>,
           \<lparr>bbox = [200, 0, 260, 80], label = ''desk'', confidence = 87 / 100\<rparr>])
       320"

definition build_object_detection_assistant :: "Frame \<Rightarrow> ObjectDetectionAssistant" where
  "build_object_detection_assistant camera =
     \<lparr>det_camera = camera,
      det_detector =
        DummyObjectDetector
          (Some [\<lparr>object_label = ''person'', object_bbox = [10, 10, 100, 200],
                   object_confidence = 95 / 100\<rparr>,
                 \<lparr>object_label = ''book'', object_bbox = [140, 40, 220, 120],
                   object_confidence = 89 / 100\<rparr>])\<rparr>"

text \<open>
  The reading assistant is built without a \<open>fallback_message\<close> argument, so it has the
  default one.
\<close>

definition build_reading_assistant :: "Frame \<Rightarrow> ReadingAssistant" where
  "build_reading_assistant camera =
     \<lparr>read_camera = camera,
      read_ocr_engine = DummyOcrEngine ''Welcome to the campus library'',
      read_fallback_message = Some ''no text detected''\<rparr>"

text \<open>
  The loop of \<open>run_demo\<close>: \<open>n\<close> rounds, each one \<open>listen_and_handle\<close> and then the
  \<open>process_frame\<close> of the assistant of the active mode. The loop state is the voice
  assistant and the shared audio output.
\<close>

fun demo_loop ::
  "nat \<Rightarrow> NavigationAssistant \<Rightarrow> ObjectDetectionAssistant \<Rightarrow> ReadingAssistant \<Rightarrow>
   VoiceAssistant \<Rightarrow> DummyAudioOutput \<Rightarrow> error + VoiceAssistant \<times> DummyAudioOutput" where
  "demo_loop 0 nav det rd va audio = Inr (va, audio)"
| "demo_loop (Suc n) nav det rd va audio =
     (case listen_and_handle va of
        Inl e \<Rightarrow> Inl e
      | Inr (res, va') \<Rightarrow>
          (let mode = active_mode va' in
           if mode = ''navigation'' then
             (case nav_process_frame nav audio of
                Inl e \<Rightarrow> Inl e
              | Inr (g, audio') \<Rightarrow> demo_loop n nav det rd va' audio')
           else if mode = ''object_detection'' then
             demo_loop n nav det rd va' (snd (det_process_frame det audio))
           else if mode = ''reading'' then
             demo_loop n nav det rd va' (snd (read_process_frame rd audio))
           else demo_loop n nav det rd va' audio))"

text \<open>
  \<open>run_demo\<close>: the voice assistant is built with the default command configuration and
  the default initial mode \<open>navigation\<close>.
\<close>

definition run_demo :: "string list \<Rightarrow> error + string list" where
  "run_demo transcripts =
     (let camera = DummyCamera_get_frame;
          audio = DummyAudioOutput_init
      in case VoiceAssistant_init (ScriptedTranscriber transcripts 0) None ''navigation'' of
           Inl e \<Rightarrow> Inl e
         | Inr voice_assistant \<Rightarrow>
             (case build_navigation_assistant camera of
                Inl e \<Rightarrow> Inl e
              | Inr navigation_assistant \<Rightarrow>
                  (case demo_loop (length transcripts) navigation_assistant
                          (build_object_detection_assistant camera)
                          (build_reading_assistant camera) voice_assistant audio of
                     Inl e \<Rightarrow> Inl e
                   | Inr (va, audio') \<Rightarrow> Inr (messages audio'))))"

section \<open>Reference definitions\<close>

text \<open>
  The guidance heuristic as the specification words it, over the reals: the horizontal
  centre of an obstacle is \<open>(left + right) / 2\<close>, the obstacle is left-side when its
  centre is below \<open>frame_width / 2\<close>, and the direction steers away from the side
  with more obstacles.
\<close>

definition spec_center :: "Obstacle \<Rightarrow> real" where
  "spec_center ob = real_of_int (bbox ob ! 0 + bbox ob ! 2) / 2"

definition spec_left_side :: "int \<Rightarrow> Obstacle \<Rightarrow> bool" where
  "spec_left_side fw ob = (spec_center ob < real_of_int fw / 2)"

definition spec_direction :: "Obstacle list \<Rightarrow> int \<Rightarrow> string" where
  "spec_direction obs fw =
     (if obs = [] then ''forward''
      else
        let l = length (filter (spec_left_side fw) obs);
            r = length (filter (\<lambda>ob. \<not> spec_left_side fw ob) obs)
        in if r < l then ''right'' else if l < r then ''left'' else ''forward'')"

text \<open>
  The states of a voice assistant that calls of \<open>handle_transcript\<close> and of
  \<open>listen_and_handle\<close> can lead to. A call of \<open>listen_and_handle\<close> that raises
  leaves the assistant as it was.
\<close>

inductive reachable :: "VoiceAssistant \<Rightarrow> VoiceAssistant \<Rightarrow> bool" for va0 where
  reachable_init: "reachable va0 va0"
| reachable_handle:
    "reachable va0 va \<Longrightarrow> handle_transcript va t = (res, va') \<Longrightarrow> reachable va0 va'"
| reachable_listen:
    "reachable va0 va \<Longrightarrow> listen_and_handle va = Inr (res, va') \<Longrightarrow> reachable va0 va'"

section \<open>Properties of the guidance heuristic\<close>

subsection \<open>Helper lemmas\<close>

lemma py_truediv2_exact: "\<bar>a\<bar> < 2 ^ 53 \<Longrightarrow> py_truediv2 a = Inr (of_int a / 2)"
  by (simp add: py_truediv2_def round_to_53_def)

lemma half_less_iff: "((of_int a :: 'a::linordered_field) / 2 < of_int b / 2) = (a < b)"
  by simp

lemma center_x_exact:
  assumes "3 \<le> length (bbox ob)" and "\<bar>bbox ob ! 0 + bbox ob ! 2\<bar> < 2 ^ 53"
  shows "center_x ob = Inr (of_int (bbox ob ! 0 + bbox ob ! 2) / 2)"
  using assms by (auto simp: center_x_def getitem_def py_truediv2_exact)

lemma guidance_loop_exact:
  assumes "\<forall>ob\<in>set obs. 3 \<le> length (bbox ob) \<and> \<bar>bbox ob ! 0 + bbox ob ! 2\<bar> < 2 ^ 53"
    and "\<bar>fw\<bar> < 2 ^ 53"
  shows "guidance_loop fw obs (l, r) =
           Inr (l + length (filter (spec_left_side fw) obs),
                r + length (filter (\<lambda>ob. \<not> spec_left_side fw ob) obs))"
  using assms
proof (induction obs arbitrary: l r)
  case Nil
  then show ?case by simp
next
  case (Cons ob obs)
  have c: "center_x ob = Inr (of_int (bbox ob ! 0 + bbox ob ! 2) / 2)"
    using Cons.prems(1) by (simp add: center_x_exact)
  have h: "py_truediv2 fw = Inr (of_int fw / 2)"
    using Cons.prems(2) by (rule py_truediv2_exact)
  have cmp: "((of_int (bbox ob ! 0 + bbox ob ! 2) / 2 :: rat) < of_int fw / 2) = spec_left_side fw ob"
    unfolding spec_left_side_def spec_center_def half_less_iff ..
  have tl: "\<forall>ob\<in>set obs. 3 \<le> length (bbox ob) \<and> \<bar>bbox ob ! 0 + bbox ob ! 2\<bar> < 2 ^ 53"
    using Cons.prems(1) by simp
  show ?case
  proof (cases "spec_left_side fw ob")
    case True
    then show ?thesis
      using Cons.IH [OF tl Cons.prems(2), of "l + 1" r] c h cmp by simp
  next
    case False
    then show ?thesis
      using Cons.IH [OF tl Cons.prems(2), of l "r + 1"] c h cmp by simp
  qed
qed

lemma init_frame_width:
  "NavigationAssistant_init cam det fw = Inr na \<Longrightarrow> 0 < fw \<and> nav_frame_width na = fw"
  by (auto simp: NavigationAssistant_init_def split: if_splits)

lemma guidance_loop_eq_choose_loop: "guidance_loop fw obs acc = choose_loop fw obs acc"
  by (induction fw obs acc rule: guidance_loop.induct) (simp_all split: sum.splits)

subsection \<open>Agreement with the reference definition\<close>

text \<open>
  C1, as amended. For every sequence of obstacles whose bounding boxes have at least
  three entries with \<open>\<bar>bbox[0] + bbox[2]\<bar> < 2 ^ 53\<close>, and every frame width
  with \<open>0 < frame_width < 2 ^ 53\<close>, the direction \<open>_compute_guidance\<close> returns is
  the one of the reference definition: forward for no obstacle, otherwise each obstacle
  is left-side exactly when the real number \<open>(bbox[0] + bbox[2]) / 2\<close> is below
  \<open>frame_width / 2\<close>, and the result is right when the left-side obstacles are more,
  left when the right-side obstacles are more. In that range the float division of the
  source is exact.
\<close>

theorem compute_guidance_refines_spec_direction:
  assumes "NavigationAssistant_init cam det fw = Inr na"
    and "\<forall>ob\<in>set obs. 3 \<le> length (bbox ob) \<and> \<bar>bbox ob ! 0 + bbox ob ! 2\<bar> < 2 ^ 53"
    and "fw < 2 ^ 53"
  shows "compute_guidance na obs = Inr (spec_direction obs fw)"
proof -
  from assms(1) have fw: "0 < fw" "nav_frame_width na = fw"
    using init_frame_width by blast+
  with assms(3) have "\<bar>fw\<bar> < 2 ^ 53" by simp
  from guidance_loop_exact [OF assms(2) this, of 0 0] fw(2)
  show ?thesis
    by (simp add: compute_guidance_def spec_direction_def Let_def)
qed

text \<open>
  The theorem at the frame width 320 with two obstacles left of the midpoint.
\<close>

theorem compute_guidance_refines_spec_direction_witness:
  "NavigationAssistant_init Frame (DummyObstacleDetector []) 320 =
     Inr \<lparr>nav_camera = Frame, nav_detector = DummyObstacleDetector [], nav_frame_width = 320\<rparr>
   \<and> list_all (\<lambda>ob. 3 \<le> length (bbox ob) \<and> \<bar>bbox ob ! 0 + bbox ob ! 2\<bar> < 2 ^ 53)
        [\<lparr>bbox = [20, 0, 80, 60], label = ''chair'', confidence = 91 / 100\<rparr>,
         \<lparr>bbox = [30, 0, 100, 80], label = ''desk'', confidence = 87 / 100\<rparr>]
   \<and> (320::int) < 2 ^ 53
   \<and> compute_guidance
        \<lparr>nav_camera = Frame, nav_detector = DummyObstacleDetector [], nav_frame_width = 320\<rparr>
        [\<lparr>bbox = [20, 0, 80, 60], label = ''chair'', confidence = 91 / 100\<rparr>,
         \<lparr>bbox = [30, 0, 100, 80], label = ''desk'', confidence = 87 / 100\<rparr>] = Inr ''right''"
proof -
  let ?na = "\<lparr>nav_camera = Frame, nav_detector = DummyObstacleDetector [], nav_frame_width = 320\<rparr>"
  let ?obs = "[\<lparr>bbox = [20, 0, 80, 60], label = ''chair'', confidence = 91 / 100\<rparr>,
               \<lparr>bbox = [30, 0, 100, 80], label = ''desk'', confidence = 87 / 100\<rparr>]"
  have h1: "NavigationAssistant_init Frame (DummyObstacleDetector []) 320 = Inr ?na"
    by (simp add: NavigationAssistant_init_def)
  have h2: "\<forall>ob\<in>set ?obs. 3 \<le> length (bbox ob) \<and> \<bar>bbox ob ! 0 + bbox ob ! 2\<bar> < 2 ^ 53"
    by simp
  have h3: "(320::int) < 2 ^ 53" by simp
  have s: "spec_direction ?obs 320 = ''right''"
    by (simp add: spec_direction_def spec_left_side_def spec_center_def)
  show ?thesis
    using h1 h2 h3 compute_guidance_refines_spec_direction [OF h1 h2 h3] s by simp
qed

text \<open>
  C1 as stated, for every frame width, fails: with the frame width \<open>2 ^ 53 + 1\<close> and
  one obstacle from 0 to \<open>2 ^ 53\<close>, the centre \<open>2 ^ 52\<close> is below the real midpoint
  \<open>2 ^ 52 + 1 / 2\<close>, so the reference definition answers right. The source divides
  in floating point, where \<open>(2 ^ 53 + 1) / 2\<close> rounds to \<open>2 ^ 52\<close>: the obstacle is
  not below the midpoint, counts as right-side, and the answer is left.
\<close>

theorem compute_guidance_float_rounding_counterexample:
  "compute_guidance
     \<lparr>nav_camera = Frame, nav_detector = DummyObstacleDetector [],
      nav_frame_width = 2 ^ 53 + 1\<rparr>
     [\<lparr>bbox = [0, 0, 2 ^ 53, 10], label = ''wall'', confidence = 1\<rparr>] = Inr ''left''
   \<and> spec_direction [\<lparr>bbox = [0, 0, 2 ^ 53, 10], label = ''wall'', confidence = 1\<rparr>]
        (2 ^ 53 + 1) = ''right''"
proof -
  have a: "py_truediv2 9007199254740992 = Inr 4503599627370496"
    by code_simp
  have b: "py_truediv2 9007199254740993 = Inr 4503599627370496"
    by code_simp
  have c: "spec_direction [\<lparr>bbox = [0, 0, 2 ^ 53, 10], label = ''wall'', confidence = 1\<rparr>]
        (2 ^ 53 + 1) = ''right''"
    by (simp add: spec_direction_def spec_left_side_def spec_center_def)
  show ?thesis
    using c by (simp add: compute_guidance_def center_x_def getitem_def a b)
qed

subsection \<open>Ties\<close>

text \<open>
  C2, as amended. For every frame width with \<open>0 < frame_width < 2 ^ 53\<close> and every
  sequence of obstacles whose bounding boxes have at least three entries with
  \<open>\<bar>bbox[0] + bbox[2]\<bar> < 2 ^ 53\<close>, whenever the left-side and right-side counts
  are equal (left-side meaning that the real number \<open>(bbox[0] + bbox[2]) / 2\<close> is
  below \<open>frame_width / 2\<close>) the direction is forward, in the method and in the free
  function. A single obstacle never ties: one with at least three bounding-box entries
  whose centre \<open>(bbox[0] + bbox[2]) / 2\<close> is exactly \<open>frame_width / 2\<close> is not
  left-side, counts as right-side, and the direction is left.
\<close>

theorem equal_side_counts_forward_single_centered_left:
  assumes "NavigationAssistant_init cam det fw = Inr na"
    and "fw < 2 ^ 53"
  shows "((\<forall>o'\<in>set obs. 3 \<le> length (bbox o') \<and> \<bar>bbox o' ! 0 + bbox o' ! 2\<bar> < 2 ^ 53)
          \<and> length (filter (spec_left_side fw) obs)
              = length (filter (\<lambda>o'. \<not> spec_left_side fw o') obs) \<longrightarrow>
            compute_guidance na obs = Inr ''forward''
            \<and> choose_direction_from_obstacles obs fw = Inr ''forward'')
       \<and> (3 \<le> length (bbox ob) \<and> spec_center ob = real_of_int fw / 2 \<longrightarrow>
            \<not> spec_left_side fw ob
            \<and> compute_guidance na [ob] = Inr ''left''
            \<and> choose_direction_from_obstacles [ob] fw = Inr ''left'')"
proof -
  from assms(1) have fw: "0 < fw" "nav_frame_width na = fw"
    using init_frame_width by blast+
  with assms(2) have range: "\<bar>fw\<bar> < 2 ^ 53" by simp
  have tie: "compute_guidance na obs = Inr ''forward''
      \<and> choose_direction_from_obstacles obs fw = Inr ''forward''"
    if wf: "\<forall>o'\<in>set obs. 3 \<le> length (bbox o') \<and> \<bar>bbox o' ! 0 + bbox o' ! 2\<bar> < 2 ^ 53"
      and eq: "length (filter (spec_left_side fw) obs)
              = length (filter (\<lambda>o'. \<not> spec_left_side fw o') obs)"
  proof -
    from guidance_loop_exact [OF wf range, of 0 0] eq
    have "guidance_loop fw obs (0, 0) =
            Inr (length (filter (spec_left_side fw) obs), length (filter (spec_left_side fw) obs))"
      by simp
    with fw show ?thesis
      by (simp add: compute_guidance_def choose_direction_from_obstacles_def
          guidance_loop_eq_choose_loop [symmetric])
  qed
  have single: "\<not> spec_left_side fw ob \<and> compute_guidance na [ob] = Inr ''left''
      \<and> choose_direction_from_obstacles [ob] fw = Inr ''left''"
    if len: "3 \<le> length (bbox ob)" and mid: "spec_center ob = real_of_int fw / 2"
  proof -
    from mid have "real_of_int (bbox ob ! 0 + bbox ob ! 2) = real_of_int fw"
      unfolding spec_center_def by simp
    then have sum: "bbox ob ! 0 + bbox ob ! 2 = fw"
      by (simp only: of_int_eq_iff)
    from mid have nl: "\<not> spec_left_side fw ob"
      by (simp add: spec_left_side_def)
    have wf: "\<forall>o'\<in>set [ob]. 3 \<le> length (bbox o') \<and> \<bar>bbox o' ! 0 + bbox o' ! 2\<bar> < 2 ^ 53"
      using len sum range by simp
    from guidance_loop_exact [OF wf range, of 0 0] nl
    have "guidance_loop fw [ob] (0, 0) = Inr (0, 1)"
      by simp
    with fw nl show ?thesis
      by (simp add: compute_guidance_def choose_direction_from_obstacles_def
          guidance_loop_eq_choose_loop [symmetric])
  qed
  from tie single show ?thesis by blast
qed

text \<open>
  The theorem at the frame width 320: the two obstacles of the demo, one on each side,
  tie, and an obstacle from 130 to 190 is centred on the midpoint 160.
\<close>

theorem equal_side_counts_forward_single_centered_left_witness:
  "NavigationAssistant_init Frame (DummyObstacleDetector []) 320 =
     Inr \<lparr>nav_camera = Frame, nav_detector = DummyObstacleDetector [], nav_frame_width = 320\<rparr>
   \<and> (320::int) < 2 ^ 53
   \<and> list_all (\<lambda>o'. 3 \<le> length (bbox o') \<and> \<bar>bbox o' ! 0 + bbox o' ! 2\<bar> < 2 ^ 53)
        [\<lparr>bbox = [20, 0, 80, 60], label = ''chair'', confidence = 91 / 100\<rparr>,
         \<lparr>bbox = [200, 0, 260, 80], label = ''desk'', confidence = 87 / 100\<rparr>]
   \<and> length (filter (spec_left_side 320)
        [\<lparr>bbox = [20, 0, 80, 60], label = ''chair'', confidence = 91 / 100\<rparr>,
         \<lparr>bbox = [200, 0, 260, 80], label = ''desk'', confidence = 87 / 100\<rparr>]) = 1
   \<and> length (filter (\<lambda>o'. \<not> spec_left_side 320 o')
        [\<lparr>bbox = [20, 0, 80, 60], label = ''chair'', confidence = 91 / 100\<rparr>,
         \<lparr>bbox = [200, 0, 260, 80], label = ''desk'', confidence = 87 / 100\<rparr>]) = 1
   \<and> compute_guidance
        \<lparr>nav_camera = Frame, nav_detector = DummyObstacleDetector [], nav_frame_width = 320\<rparr>
        [\<lparr>bbox = [20, 0, 80, 60], label = ''chair'', confidence = 91 / 100\<rparr>,
         \<lparr>bbox = [200, 0, 260, 80], label = ''desk'', confidence = 87 / 100\<rparr>] = Inr ''forward''
   \<and> 3 \<le> length (bbox \<lparr>bbox = [130, 0, 190, 60], label = ''door'', confidence = 9 / 10\<rparr>)
   \<and> spec_center \<lparr>bbox = [130, 0, 190, 60], label = ''door'', confidence = 9 / 10\<rparr> = 320 / 2
   \<and> compute_guidance
        \<lparr>nav_camera = Frame, nav_detector = DummyObstacleDetector [], nav_frame_width = 320\<rparr>
        [\<lparr>bbox = [130, 0, 190, 60], label = ''door'', confidence = 9 / 10\<rparr>] = Inr ''left''"
proof -
  let ?na = "\<lparr>nav_camera = Frame, nav_detector = DummyObstacleDetector [], nav_frame_width = 320\<rparr>"
  let ?obs = "[\<lparr>bbox = [20, 0, 80, 60], label = ''chair'', confidence = 91 / 100\<rparr>,
               \<lparr>bbox = [200, 0, 260, 80], label = ''desk'', confidence = 87 / 100\<rparr>]"
  let ?ob = "\<lparr>bbox = [130, 0, 190, 60], label = ''door'', confidence = 9 / 10\<rparr>"
  have h1: "NavigationAssistant_init Frame (DummyObstacleDetector []) 320 = Inr ?na"
    by (simp add: NavigationAssistant_init_def)
  have h2: "(320::int) < 2 ^ 53" by simp
  have h3: "\<forall>o'\<in>set ?obs. 3 \<le> length (bbox o') \<and> \<bar>bbox o' ! 0 + bbox o' ! 2\<bar> < 2 ^ 53"
    by simp
  have h4: "length (filter (spec_left_side 320) ?obs) = 1
            \<and> length (filter (\<lambda>o'. \<not> spec_left_side 320 o') ?obs) = 1"
    by (simp add: spec_left_side_def spec_center_def)
  have h5: "3 \<le> length (bbox ?ob) \<and> spec_center ?ob = real_of_int 320 / 2"
    by (simp add: spec_center_def)
  show ?thesis
    using h1 h2 h3 h4 h5
      equal_side_counts_forward_single_centered_left [OF h1 h2, of ?obs ?ob]
    by (simp add: list_all_iff)
qed

text \<open>
  C2 as stated fails twice. The single obstacle from 100 to 220 has its centre at 160,
  the midpoint of a frame 320 wide, and the direction is left, not forward. And with the
  frame width \<open>2 ^ 53 + 1\<close>, of the obstacles from 0 to \<open>2 ^ 53\<close> and from 2 to
  \<open>2 ^ 53\<close> one is below the real midpoint and one above, a tie; in floating point
  the first centre and the midpoint both round to \<open>2 ^ 52\<close>, the loop counts both
  obstacles right-side, and the direction is left.
\<close>

theorem centered_obstacle_and_rounded_tie_counterexample:
  "center_x \<lparr>bbox = [100, 0, 220, 60], label = ''door'', confidence = 9 / 10\<rparr> = Inr 160
   \<and> py_truediv2 320 = Inr 160
   \<and> compute_guidance
        \<lparr>nav_camera = Frame, nav_detector = DummyObstacleDetector [], nav_frame_width = 320\<rparr>
        [\<lparr>bbox = [100, 0, 220, 60], label = ''door'', confidence = 9 / 10\<rparr>] = Inr ''left''
   \<and> choose_direction_from_obstacles
        [\<lparr>bbox = [100, 0, 220, 60], label = ''door'', confidence = 9 / 10\<rparr>] 320 = Inr ''left''
   \<and> length (filter (spec_left_side (2 ^ 53 + 1))
        [\<lparr>bbox = [0, 0, 2 ^ 53, 10], label = ''wall'', confidence = 1\<rparr>,
         \<lparr>bbox = [2, 0, 2 ^ 53, 10], label = ''gate'', confidence = 1\<rparr>]) = 1
   \<and> length (filter (\<lambda>o'. \<not> spec_left_side (2 ^ 53 + 1) o')
        [\<lparr>bbox = [0, 0, 2 ^ 53, 10], label = ''wall'', confidence = 1\<rparr>,
         \<lparr>bbox = [2, 0, 2 ^ 53, 10], label = ''gate'', confidence = 1\<rparr>]) = 1
   \<and> compute_guidance
        \<lparr>nav_camera = Frame, nav_detector = DummyObstacleDetector [],
         nav_frame_width = 2 ^ 53 + 1\<rparr>
        [\<lparr>bbox = [0, 0, 2 ^ 53, 10], label = ''wall'', confidence = 1\<rparr>,
         \<lparr>bbox = [2, 0, 2 ^ 53, 10], label = ''gate'', confidence = 1\<rparr>] = Inr ''left''"
proof -
  have a: "py_truediv2 9007199254740992 = Inr 4503599627370496"
    by code_simp
  have b: "py_truediv2 9007199254740993 = Inr 4503599627370496"
    by code_simp
  have c: "py_truediv2 9007199254740994 = Inr 4503599627370497"
    by code_simp
  have single: "center_x \<lparr>bbox = [100, 0, 220, 60], label = ''door'', confidence = 9 / 10\<rparr> = Inr 160
   \<and> py_truediv2 320 = Inr 160
   \<and> compute_guidance
        \<lparr>nav_camera = Frame, nav_detector = DummyObstacleDetector [], nav_frame_width = 320\<rparr>
        [\<lparr>bbox = [100, 0, 220, 60], label = ''door'', confidence = 9 / 10\<rparr>] = Inr ''left''
   \<and> choose_direction_from_obstacles
        [\<lparr>bbox = [100, 0, 220, 60], label = ''door'', confidence = 9 / 10\<rparr>] 320 = Inr ''left''"
    by (simp add: compute_guidance_def choose_direction_from_obstacles_def center_x_def
        getitem_def py_truediv2_def round_to_53_def)
  have counts: "length (filter (spec_left_side (2 ^ 53 + 1))
        [\<lparr>bbox = [0, 0, 2 ^ 53, 10], label = ''wall'', confidence = 1\<rparr>,
         \<lparr>bbox = [2, 0, 2 ^ 53, 10], label = ''gate'', confidence = 1\<rparr>]) = 1
   \<and> length (filter (\<lambda>o'. \<not> spec_left_side (2 ^ 53 + 1) o')
        [\<lparr>bbox = [0, 0, 2 ^ 53, 10], label = ''wall'', confidence = 1\<rparr>,
         \<lparr>bbox = [2, 0, 2 ^ 53, 10], label = ''gate'', confidence = 1\<rparr>]) = 1"
    by (simp add: spec_left_side_def spec_center_def)
  have code: "compute_guidance
        \<lparr>nav_camera = Frame, nav_detector = DummyObstacleDetector [],
         nav_frame_width = 2 ^ 53 + 1\<rparr>
        [\<lparr>bbox = [0, 0, 2 ^ 53, 10], label = ''wall'', confidence = 1\<rparr>,
         \<lparr>bbox = [2, 0, 2 ^ 53, 10], label = ''gate'', confidence = 1\<rparr>] = Inr ''left''"
    by (simp add: compute_guidance_def center_x_def getitem_def a b c)
  from single counts code show ?thesis by blast
qed

subsection \<open>The method and the free function\<close>

text \<open>
  C4. For every finite sequence of obstacles and every frame width \<open>> 0\<close> (the
  assistant was constructed with it), \<open>_compute_guidance\<close> of the assistant and
  \<open>choose_direction_from_obstacles\<close> return the same result, a direction or the same
  exception.
\<close>

theorem compute_guidance_eq_choose_direction:
  assumes "NavigationAssistant_init cam det fw = Inr na"
  shows "compute_guidance na obs = choose_direction_from_obstacles obs fw"
proof -
  from assms have "0 < fw" "nav_frame_width na = fw"
    using init_frame_width by blast+
  then show ?thesis
    by (simp add: compute_guidance_def choose_direction_from_obstacles_def
        guidance_loop_eq_choose_loop)
qed

theorem compute_guidance_eq_choose_direction_witness:
  "NavigationAssistant_init Frame (DummyObstacleDetector []) 320 =
     Inr \<lparr>nav_camera = Frame, nav_detector = DummyObstacleDetector [], nav_frame_width = 320\<rparr>
   \<and> compute_guidance
        \<lparr>nav_camera = Frame, nav_detector = DummyObstacleDetector [], nav_frame_width = 320\<rparr>
        [\<lparr>bbox = [20, 0, 80, 60], label = ''chair'', confidence = 91 / 100\<rparr>]
      = choose_direction_from_obstacles
         [\<lparr>bbox = [20, 0, 80, 60], label = ''chair'', confidence = 91 / 100\<rparr>] 320
   \<and> choose_direction_from_obstacles
         [\<lparr>bbox = [20, 0, 80, 60], label = ''chair'', confidence = 91 / 100\<rparr>] 320 = Inr ''right''"
proof -
  let ?na = "\<lparr>nav_camera = Frame, nav_detector = DummyObstacleDetector [], nav_frame_width = 320\<rparr>"
  let ?obs = "[\<lparr>bbox = [20, 0, 80, 60], label = ''chair'', confidence = 91 / 100\<rparr>]"
  have h1: "NavigationAssistant_init Frame (DummyObstacleDetector []) 320 = Inr ?na"
    by (simp add: NavigationAssistant_init_def)
  have r: "choose_direction_from_obstacles ?obs 320 = Inr ''right''"
    by (simp add: choose_direction_from_obstacles_def center_x_def getitem_def
        py_truediv2_def round_to_53_def)
  show ?thesis
    using h1 r compute_guidance_eq_choose_direction [OF h1, of ?obs] by simp
qed

subsection \<open>Non-positive frame widths\<close>

text \<open>
  C5. For every frame width \<open>\<le> 0\<close>, constructing a \<open>NavigationAssistant\<close> raises
  ValueError, and \<open>choose_direction_from_obstacles\<close> raises ValueError for every
  sequence of obstacles, the empty one and malformed ones included.
\<close>

theorem nonpositive_frame_width_rejected:
  assumes "fw \<le> 0"
  shows "NavigationAssistant_init cam det fw = Inl (ValueError ''frame_width must be positive'')
       \<and> choose_direction_from_obstacles obs fw = Inl (ValueError ''frame_width must be positive'')"
  using assms by (simp add: NavigationAssistant_init_def choose_direction_from_obstacles_def)

theorem nonpositive_frame_width_rejected_witness:
  "(0::int) \<le> 0
   \<and> NavigationAssistant_init Frame (DummyObstacleDetector []) 0
       = Inl (ValueError ''frame_width must be positive'')
   \<and> choose_direction_from_obstacles [] 0 = Inl (ValueError ''frame_width must be positive'')
   \<and> choose_direction_from_obstacles
        [\<lparr>bbox = [], label = ''chair'', confidence = 91 / 100\<rparr>] (- 5)
       = Inl (ValueError ''frame_width must be positive'')"
proof -
  have h: "(0::int) \<le> 0" by simp
  have h': "(- 5::int) \<le> 0" by simp
  show ?thesis
    using h nonpositive_frame_width_rejected [OF h, of Frame "DummyObstacleDetector []" "[]"]
      nonpositive_frame_width_rejected [OF h', of Frame "DummyObstacleDetector []"
        "[\<lparr>bbox = [], label = ''chair'', confidence = 91 / 100\<rparr>]"]
    by simp
qed

section \<open>Properties of the mode matcher\<close>

subsection \<open>Helper lemmas\<close>

text \<open>
  \<open>phrase in transcript\<close> is the substring relation.
\<close>

lemma str_contains_iff_sublist: "str_contains phrase t = sublist phrase t"
  by (induction t) (simp_all add: sublist_Cons_right)

lemma any_phrase_in_iff: "any_phrase_in phrases t = (\<exists>p\<in>set phrases. sublist p t)"
  by (induction phrases) (simp_all add: str_contains_iff_sublist)

lemma match_loop_None_iff:
  "(match_loop tbl t = None) = (\<forall>(m, ps)\<in>set tbl. \<forall>p\<in>set ps. \<not> sublist p t)"
  by (induction tbl t rule: match_loop.induct) (auto simp: any_phrase_in_iff)

lemma match_loop_first:
  assumes "\<forall>(m, ps)\<in>set pre. \<forall>p\<in>set ps. \<not> sublist p t"
    and "phrase \<in> set phrases" and "sublist phrase t"
  shows "match_loop (pre @ (mode, phrases) # post) t = Some mode"
  using assms(1)
proof (induction pre)
  case Nil
  from assms(2,3) show ?case by (auto simp: any_phrase_in_iff)
next
  case (Cons entry pre)
  obtain m ps where e: "entry = (m, ps)" by (cases entry)
  with Cons.prems have "\<not> any_phrase_in ps t" by (simp add: any_phrase_in_iff)
  with e Cons show ?case by simp
qed

lemma match_loop_Some_key: "match_loop tbl t = Some m \<Longrightarrow> m \<in> fst ` set tbl"
  by (induction tbl t rule: match_loop.induct) (auto split: if_splits)

lemma post_init_ok_iff: "(post_init tbl = Inr ()) = (fst ` set tbl \<subseteq> set MODES)"
  by (induction tbl rule: post_init.induct) auto

lemma post_init_error:
  "\<exists>k\<in>fst ` set tbl. k \<notin> set MODES \<Longrightarrow>
   \<exists>k\<in>fst ` set tbl. k \<notin> set MODES \<and> post_init tbl = Inl (ValueError (''Unsupported mode: '' @ k))"
  by (induction tbl rule: post_init.induct) auto

lemma CommandConfig_init_keys:
  "CommandConfig_init table = Inr cfg \<Longrightarrow> fst ` set (phrases_by_mode cfg) \<subseteq> set MODES"
  by (auto simp: CommandConfig_init_def Let_def post_init_ok_iff [symmetric] split: sum.splits)

lemma MODES_nonempty: "m \<in> set MODES \<Longrightarrow> m \<noteq> []"
  by (auto simp: MODES_def)

lemma handle_transcript_invariant:
  assumes "fst ` set (phrases_by_mode (command_config va)) \<subseteq> set MODES"
    and "active_mode va \<in> set MODES"
    and "handle_transcript va t = (res, va')"
  shows "command_config va' = command_config va \<and> active_mode va' \<in> set MODES"
proof (cases "match_mode va (normalize t)")
  case None
  with assms show ?thesis by (auto simp: handle_transcript_def Let_def)
next
  case (Some m)
  then have "m \<in> set MODES"
    using assms(1) match_loop_Some_key by (fastforce simp: match_mode_def)
  with Some assms(2,3) show ?thesis
    by (auto simp: handle_transcript_def Let_def)
qed

lemma listen_and_handle_invariant:
  assumes "fst ` set (phrases_by_mode (command_config va)) \<subseteq> set MODES"
    and "active_mode va \<in> set MODES"
    and "listen_and_handle va = Inr (res, va')"
  shows "command_config va' = command_config va \<and> active_mode va' \<in> set MODES"
proof -
  from assms(3) obtain t tr' where
    "handle_transcript (va\<lparr>transcriber := tr'\<rparr>) t = (res, va')"
    by (auto simp: listen_and_handle_def split: sum.splits)
  from handle_transcript_invariant [OF _ _ this] assms(1,2)
  show ?thesis by simp
qed

lemma reachable_invariant:
  assumes "reachable va0 va"
    and "fst ` set (phrases_by_mode (command_config va0)) \<subseteq> set MODES"
    and "active_mode va0 \<in> set MODES"
  shows "command_config va = command_config va0 \<and> active_mode va \<in> set MODES"
  using assms
proof (induction rule: reachable.induct)
  case reachable_init
  then show ?case by simp
next
  case (reachable_handle va t res va')
  then show ?case using handle_transcript_invariant [of va t res va'] by simp
next
  case (reachable_listen va res va')
  then show ?case using listen_and_handle_invariant [of va res va'] by simp
qed

subsection \<open>Matching a configured phrase\<close>

text \<open>
  C3, as amended. For every transcript and every phrase configured for some mode of a
  validated phrase table, if the phrase is a substring of the normalised transcript and
  no phrase of a mode earlier in the table is one, then the matcher returns that
  phrase's mode, the result reports it, and the active mode of the assistant becomes
  that mode.
\<close>

theorem first_configured_phrase_selects_mode:
  assumes "CommandConfig_init table = Inr (command_config va)"
    and "phrases_by_mode (command_config va) = pre @ (mode, phrases) # post"
    and "phrase \<in> set phrases"
    and "sublist phrase (normalize t)"
    and "\<forall>(m, ps)\<in>set pre. \<forall>p\<in>set ps. \<not> sublist p (normalize t)"
  shows "match_mode va (normalize t) = Some mode
       \<and> matched_command (fst (handle_transcript va t)) = Some mode
       \<and> active_mode (snd (handle_transcript va t)) = mode"
proof -
  have m: "match_mode va (normalize t) = Some mode"
    unfolding match_mode_def assms(2)
    using assms(5,3,4) by (rule match_loop_first)
  have "mode \<in> fst ` set (phrases_by_mode (command_config va))"
    unfolding assms(2) by simp
  with CommandConfig_init_keys [OF assms(1)] have "mode \<in> set MODES" by blast
  then have "mode \<noteq> []" by (rule MODES_nonempty)
  with m show ?thesis
    by (simp add: handle_transcript_def Let_def)
qed

theorem first_configured_phrase_selects_mode_witness:
  "CommandConfig_init None = Inr \<lparr>phrases_by_mode = default_phrases_by_mode\<rparr>
   \<and> default_phrases_by_mode =
       [(''navigation'', [''navigation mode'', ''switch to navigation'', ''navigation''])]
       @ (''object_detection'',
            [''object detection mode'', ''switch to object detection'', ''object detection'',
             ''object mode''])
       # [(''reading'', [''reading mode'', ''switch to reading'', ''reading'', ''read mode''])]
   \<and> sublist ''object mode'' (normalize ''  Object   MODE please'')
   \<and> list_all (\<lambda>(m, ps). list_all (\<lambda>p. \<not> sublist p (normalize ''  Object   MODE please'')) ps)
        [(''navigation'', [''navigation mode'', ''switch to navigation'', ''navigation''])]
   \<and> active_mode (snd (handle_transcript
        \<lparr>transcriber = Transcriber,
         command_config = \<lparr>phrases_by_mode = default_phrases_by_mode\<rparr>,
         active_mode = ''navigation''\<rparr>
        ''  Object   MODE please'')) = ''object_detection''"
proof -
  let ?va = "\<lparr>transcriber = Transcriber,
         command_config = \<lparr>phrases_by_mode = default_phrases_by_mode\<rparr>,
         active_mode = ''navigation''\<rparr>"
  let ?pre = "[(''navigation'', [''navigation mode'', ''switch to navigation'', ''navigation''])]"
  let ?phrases = "[''object detection mode'', ''switch to object detection'',
                   ''object detection'', ''object mode'']"
  let ?post = "[(''reading'', [''reading mode'', ''switch to reading'', ''reading'', ''read mode''])]"
  have n: "normalize ''  Object   MODE please'' = ''object mode please''"
    by code_simp
  have h1: "CommandConfig_init None = Inr (command_config ?va)"
    by code_simp
  have h2: "phrases_by_mode (command_config ?va) = ?pre @ (''object_detection'', ?phrases) # ?post"
    by (simp add: default_phrases_by_mode_def)
  have h3: "''object mode'' \<in> set ?phrases"
    by simp
  have h4: "sublist ''object mode'' (normalize ''  Object   MODE please'')"
    unfolding n by code_simp
  have h5: "\<forall>(m, ps)\<in>set ?pre. \<forall>p\<in>set ps. \<not> sublist p (normalize ''  Object   MODE please'')"
    unfolding n by code_simp
  show ?thesis
    using h1 h2 h4 h5 first_configured_phrase_selects_mode [OF h1 h2 h3 h4 h5]
    by (simp add: list_all_iff)
qed

text \<open>
  C3 as stated, for every configured phrase, fails: with the default table the
  transcript \<open>Reading navigation\<close> contains the phrase \<open>reading\<close> of the reading
  mode, and the matcher returns navigation, the first mode of the table with a phrase
  in the transcript.
\<close>

theorem later_mode_phrase_counterexample:
  "VoiceAssistant_init (ScriptedTranscriber [] 0) None ''reading'' =
     Inr \<lparr>transcriber = ScriptedTranscriber [] 0,
          command_config = \<lparr>phrases_by_mode = default_phrases_by_mode\<rparr>,
          active_mode = ''reading''\<rparr>
   \<and> (''reading'', [''reading mode'', ''switch to reading'', ''reading'', ''read mode''])
        \<in> set default_phrases_by_mode
   \<and> sublist ''reading'' (normalize ''Reading navigation'')
   \<and> match_mode
        \<lparr>transcriber = ScriptedTranscriber [] 0,
         command_config = \<lparr>phrases_by_mode = default_phrases_by_mode\<rparr>,
         active_mode = ''reading''\<rparr>
        (normalize ''Reading navigation'') = Some ''navigation''
   \<and> active_mode (snd (handle_transcript
        \<lparr>transcriber = ScriptedTranscriber [] 0,
         command_config = \<lparr>phrases_by_mode = default_phrases_by_mode\<rparr>,
         active_mode = ''reading''\<rparr>
        ''Reading navigation'')) = ''navigation''"
proof -
  have n: "normalize ''Reading navigation'' = ''reading navigation''"
    by code_simp
  have i: "VoiceAssistant_init (ScriptedTranscriber [] 0) None ''reading'' =
     Inr \<lparr>transcriber = ScriptedTranscriber [] 0,
          command_config = \<lparr>phrases_by_mode = default_phrases_by_mode\<rparr>,
          active_mode = ''reading''\<rparr>"
    by code_simp
  have t: "(''reading'', [''reading mode'', ''switch to reading'', ''reading'', ''read mode''])
        \<in> set default_phrases_by_mode"
    by (simp add: default_phrases_by_mode_def)
  have s: "sublist ''reading'' ''reading navigation''"
    by code_simp
  have m: "match_loop default_phrases_by_mode ''reading navigation'' = Some ''navigation''"
    by code_simp
  show ?thesis
    using i t s m by (simp add: n match_mode_def handle_transcript_def)
qed

subsection \<open>No match\<close>

text \<open>
  C6. For every transcript whose normalisation contains no configured phrase of any
  mode, \<open>handle_transcript\<close> leaves the active mode as it was (the whole assistant, in
  fact), and the result reports no matched command and the unchanged active mode.
\<close>

theorem no_match_leaves_active_mode:
  assumes "\<forall>(m, ps)\<in>set (phrases_by_mode (command_config va)). \<forall>p\<in>set ps. \<not> sublist p (normalize t)"
  shows "active_mode (snd (handle_transcript va t)) = active_mode va
       \<and> matched_command (fst (handle_transcript va t)) = None
       \<and> result_active_mode (fst (handle_transcript va t)) = active_mode va
       \<and> snd (handle_transcript va t) = va"
proof -
  from assms have "match_mode va (normalize t) = None"
    by (simp add: match_mode_def match_loop_None_iff)
  then show ?thesis
    by (simp add: handle_transcript_def Let_def)
qed

theorem no_match_leaves_active_mode_witness:
  "list_all (\<lambda>(m, ps). list_all (\<lambda>p. \<not> sublist p (normalize ''Hello  there'')) ps)
     default_phrases_by_mode
   \<and> active_mode (snd (handle_transcript
        \<lparr>transcriber = Transcriber,
         command_config = \<lparr>phrases_by_mode = default_phrases_by_mode\<rparr>,
         active_mode = ''reading''\<rparr> ''Hello  there'')) = ''reading''
   \<and> matched_command (fst (handle_transcript
        \<lparr>transcriber = Transcriber,
         command_config = \<lparr>phrases_by_mode = default_phrases_by_mode\<rparr>,
         active_mode = ''reading''\<rparr> ''Hello  there'')) = None"
proof -
  let ?va = "\<lparr>transcriber = Transcriber,
         command_config = \<lparr>phrases_by_mode = default_phrases_by_mode\<rparr>,
         active_mode = ''reading''\<rparr>"
  have n: "normalize ''Hello  there'' = ''hello there''"
    by code_simp
  have h: "\<forall>(m, ps)\<in>set default_phrases_by_mode. \<forall>p\<in>set ps. \<not> sublist p (normalize ''Hello  there'')"
    unfolding n by code_simp
  have h': "\<forall>(m, ps)\<in>set (phrases_by_mode (command_config ?va)).
              \<forall>p\<in>set ps. \<not> sublist p (normalize ''Hello  there'')"
    using h by simp
  show ?thesis
    using h no_match_leaves_active_mode [OF h'] by (simp add: list_all_iff)
qed

subsection \<open>Construction errors\<close>

text \<open>
  C8. Constructing a \<open>CommandConfig\<close> whose phrase table has a key outside
  \<open>MODES\<close> raises ValueError (naming such a key), and constructing a
  \<open>VoiceAssistant\<close> with an initial mode outside \<open>MODES\<close> raises ValueError; both
  are results of the constructors themselves.
\<close>

theorem unsupported_modes_rejected_at_construction:
  "((\<exists>k\<in>fst ` set tbl. k \<notin> set MODES) \<longrightarrow>
      (\<exists>k\<in>fst ` set tbl. k \<notin> set MODES
          \<and> CommandConfig_init (Some tbl) = Inl (ValueError (''Unsupported mode: '' @ k))))
   \<and> (initial_mode \<notin> set MODES \<longrightarrow>
        VoiceAssistant_init tr cfg initial_mode
          = Inl (ValueError (''Unsupported initial mode: '' @ initial_mode)))"
proof (intro conjI impI)
  assume "\<exists>k\<in>fst ` set tbl. k \<notin> set MODES"
  from post_init_error [OF this]
  show "\<exists>k\<in>fst ` set tbl. k \<notin> set MODES
          \<and> CommandConfig_init (Some tbl) = Inl (ValueError (''Unsupported mode: '' @ k))"
    by (auto simp: CommandConfig_init_def)
next
  assume "initial_mode \<notin> set MODES"
  then show "VoiceAssistant_init tr cfg initial_mode
          = Inl (ValueError (''Unsupported initial mode: '' @ initial_mode))"
    by (simp add: VoiceAssistant_init_def)
qed

theorem unsupported_modes_rejected_at_construction_witness:
  "(\<exists>k\<in>fst ` set [(''navigation'', [''go'']), (''dancing'', [''dance''])]. k \<notin> set MODES)
   \<and> CommandConfig_init (Some [(''navigation'', [''go'']), (''dancing'', [''dance''])])
       = Inl (ValueError ''Unsupported mode: dancing'')
   \<and> ''dancing'' \<notin> set MODES
   \<and> VoiceAssistant_init Transcriber None ''dancing''
       = Inl (ValueError ''Unsupported initial mode: dancing'')"
proof -
  have h1: "\<exists>k\<in>fst ` set [(''navigation'', [''go'']), (''dancing'', [''dance''])]. k \<notin> set MODES"
    by (simp add: MODES_def)
  have h2: "''dancing'' \<notin> set MODES"
    by (simp add: MODES_def)
  have c: "CommandConfig_init (Some [(''navigation'', [''go'']), (''dancing'', [''dance''])])
       = Inl (ValueError ''Unsupported mode: dancing'')"
    by (simp add: CommandConfig_init_def MODES_def)
  show ?thesis
    using h1 h2 c
      unsupported_modes_rejected_at_construction
        [of "[(''navigation'', [''go'']), (''dancing'', [''dance''])]" "''dancing''"
            Transcriber None]
    by simp
qed

subsection \<open>The active mode stays in the fixed set\<close>

text \<open>
  C10. For every voice assistant constructed without error, with the default command
  configuration or one that was itself constructed without error, the active mode is
  in \<open>MODES\<close> initially and after every sequence of \<open>handle_transcript\<close> and
  \<open>listen_and_handle\<close> calls.
\<close>

theorem active_mode_always_in_MODES:
  assumes "case cfg of None \<Rightarrow> True | Some c \<Rightarrow> \<exists>table. CommandConfig_init table = Inr c"
    and "VoiceAssistant_init tr cfg initial_mode = Inr va0"
    and "reachable va0 va"
  shows "active_mode va0 \<in> set MODES \<and> active_mode va \<in> set MODES"
proof -
  from assms(2) have im: "initial_mode \<in> set MODES"
    by (auto simp: VoiceAssistant_init_def split: if_splits)
  from assms(1,2) im obtain table where "CommandConfig_init table = Inr (command_config va0)"
    by (cases cfg) (auto simp: VoiceAssistant_init_def split: sum.splits)
  then have keys: "fst ` set (phrases_by_mode (command_config va0)) \<subseteq> set MODES"
    by (rule CommandConfig_init_keys)
  from assms(2) im have a0: "active_mode va0 \<in> set MODES"
    by (auto simp: VoiceAssistant_init_def split: option.splits sum.splits)
  from reachable_invariant [OF assms(3) keys a0] a0 show ?thesis by simp
qed

theorem active_mode_always_in_MODES_witness:
  "VoiceAssistant_init (ScriptedTranscriber [''Reading mode''] 0) None ''navigation'' =
     Inr \<lparr>transcriber = ScriptedTranscriber [''Reading mode''] 0,
          command_config = \<lparr>phrases_by_mode = default_phrases_by_mode\<rparr>,
          active_mode = ''navigation''\<rparr>
   \<and> reachable
        \<lparr>transcriber = ScriptedTranscriber [''Reading mode''] 0,
         command_config = \<lparr>phrases_by_mode = default_phrases_by_mode\<rparr>,
         active_mode = ''navigation''\<rparr>
        \<lparr>transcriber = ScriptedTranscriber [''Reading mode''] 1,
         command_config = \<lparr>phrases_by_mode = default_phrases_by_mode\<rparr>,
         active_mode = ''reading''\<rparr>
   \<and> ''reading'' \<in> set MODES"
proof -
  let ?va0 = "\<lparr>transcriber = ScriptedTranscriber [''Reading mode''] 0,
          command_config = \<lparr>phrases_by_mode = default_phrases_by_mode\<rparr>,
          active_mode = ''navigation''\<rparr>"
  let ?va1 = "\<lparr>transcriber = ScriptedTranscriber [''Reading mode''] 1,
          command_config = \<lparr>phrases_by_mode = default_phrases_by_mode\<rparr>,
          active_mode = ''reading''\<rparr>"
  have h0: "case None :: CommandConfig option of None \<Rightarrow> True
            | Some c \<Rightarrow> \<exists>table. CommandConfig_init table = Inr c"
    by simp
  have h1: "VoiceAssistant_init (ScriptedTranscriber [''Reading mode''] 0) None ''navigation''
              = Inr ?va0"
    by code_simp
  have n: "normalize ''Reading mode'' = ''reading mode''"
    by code_simp
  have m: "match_loop default_phrases_by_mode ''reading mode'' = Some ''reading''"
    by code_simp
  have "listen_and_handle ?va0 =
          Inr (\<lparr>transcript = ''Reading mode'', matched_command = Some ''reading'',
                 result_active_mode = ''reading''\<rparr>, ?va1)"
    by (simp add: listen_and_handle_def handle_transcript_def match_mode_def n m)
  with reachable_init [of ?va0] have h2: "reachable ?va0 ?va1"
    by (rule reachable_listen)
  show ?thesis
    using h1 h2 active_mode_always_in_MODES [OF h0 h1 h2] by simp
qed

section \<open>Properties of the reading assistant\<close>

text \<open>
  \<open>str.strip\<close> removes whitespace at both ends and nothing else.
\<close>

lemma dropWhile_all: "\<forall>x\<in>set xs. P x \<Longrightarrow> dropWhile P xs = []"
  by (induction xs) simp_all

lemma py_strip_blank: "\<forall>c\<in>set raw. py_isspace c \<Longrightarrow> py_strip raw = []"
  by (simp add: py_strip_def dropWhile_all)

lemma py_strip_nonblank:
  assumes "\<exists>c\<in>set raw. \<not> py_isspace c"
  shows "py_strip raw \<noteq> []"
proof -
  from assms obtain c where c: "c \<in> set raw" "\<not> py_isspace c" by blast
  then have "c \<in> set (dropWhile py_isspace raw)"
    by (induction raw) auto
  then have "c \<in> set (rev (dropWhile py_isspace raw))" by simp
  with c(2) have "dropWhile py_isspace (rev (dropWhile py_isspace raw)) \<noteq> []"
    by (metis dropWhile_eq_Nil_conv)
  then show ?thesis by (simp add: py_strip_def)
qed

lemma py_strip_trims:
  "\<exists>pre post. raw = pre @ py_strip raw @ post
     \<and> (\<forall>c\<in>set pre. py_isspace c) \<and> (\<forall>c\<in>set post. py_isspace c)
     \<and> (py_strip raw \<noteq> [] \<longrightarrow>
          \<not> py_isspace (hd (py_strip raw)) \<and> \<not> py_isspace (last (py_strip raw)))"
proof -
  define d where "d = dropWhile py_isspace raw"
  define pre where "pre = takeWhile py_isspace raw"
  define post where "post = rev (takeWhile py_isspace (rev d))"
  have s: "py_strip raw = rev (dropWhile py_isspace (rev d))"
    by (simp add: py_strip_def d_def)
  have "d = rev (takeWhile py_isspace (rev d) @ dropWhile py_isspace (rev d))"
    by (simp only: takeWhile_dropWhile_id rev_rev_ident)
  also have "\<dots> = rev (dropWhile py_isspace (rev d)) @ rev (takeWhile py_isspace (rev d))"
    by (rule rev_append)
  finally have d: "d = py_strip raw @ post"
    by (simp only: s post_def)
  have decomp: "raw = pre @ py_strip raw @ post"
    unfolding d [symmetric] pre_def d_def by simp
  have pre: "\<forall>c\<in>set pre. py_isspace c"
    unfolding pre_def by (auto dest: set_takeWhileD)
  have post: "\<forall>c\<in>set post. py_isspace c"
    unfolding post_def by (auto dest: set_takeWhileD)
  have ends: "\<not> py_isspace (hd (py_strip raw)) \<and> \<not> py_isspace (last (py_strip raw))"
    if ne: "py_strip raw \<noteq> []"
  proof
    from ne d have "d \<noteq> []" "hd d = hd (py_strip raw)" by auto
    then show "\<not> py_isspace (hd (py_strip raw))"
      unfolding d_def using hd_dropWhile [of py_isspace raw] by auto
    from ne have "dropWhile py_isspace (rev d) \<noteq> []" by (simp add: s)
    then have "\<not> py_isspace (hd (dropWhile py_isspace (rev d)))"
      by (rule hd_dropWhile)
    then show "\<not> py_isspace (last (py_strip raw))"
      using ne by (simp add: s last_rev)
  qed
  from decomp pre post ends show ?thesis by blast
qed

text \<open>
  C9, as amended. For every OCR result that is empty or all whitespace,
  \<open>process_frame\<close> emits the fallback message when a non-empty one is configured, and
  emits nothing when the fallback is \<open>None\<close> or the empty string; for every OCR
  result with a non-whitespace character it emits the trimmed text, which is not empty.
\<close>

theorem read_process_frame_emission:
  "((\<forall>c\<in>set (read_ocr_engine ra (read_camera ra)). py_isspace c)
      \<and> read_fallback_message ra = Some fb \<and> fb \<noteq> [] \<longrightarrow>
        messages (snd (read_process_frame ra audio)) = messages audio @ [fb])
   \<and> ((\<forall>c\<in>set (read_ocr_engine ra (read_camera ra)). py_isspace c)
      \<and> (read_fallback_message ra = None \<or> read_fallback_message ra = Some []) \<longrightarrow>
        messages (snd (read_process_frame ra audio)) = messages audio)
   \<and> ((\<exists>c\<in>set (read_ocr_engine ra (read_camera ra)). \<not> py_isspace c) \<longrightarrow>
        py_strip (read_ocr_engine ra (read_camera ra)) \<noteq> []
        \<and> messages (snd (read_process_frame ra audio))
            = messages audio @ [py_strip (read_ocr_engine ra (read_camera ra))])"
proof (intro conjI impI)
  assume "(\<forall>c\<in>set (read_ocr_engine ra (read_camera ra)). py_isspace c)
      \<and> read_fallback_message ra = Some fb \<and> fb \<noteq> []"
  then show "messages (snd (read_process_frame ra audio)) = messages audio @ [fb]"
    by (simp add: read_process_frame_def Let_def py_strip_blank speak_def)
next
  assume "(\<forall>c\<in>set (read_ocr_engine ra (read_camera ra)). py_isspace c)
      \<and> (read_fallback_message ra = None \<or> read_fallback_message ra = Some [])"
  then show "messages (snd (read_process_frame ra audio)) = messages audio"
    by (auto simp: read_process_frame_def Let_def py_strip_blank)
next
  assume a: "\<exists>c\<in>set (read_ocr_engine ra (read_camera ra)). \<not> py_isspace c"
  then show ne: "py_strip (read_ocr_engine ra (read_camera ra)) \<noteq> []"
    by (rule py_strip_nonblank)
  then show "messages (snd (read_process_frame ra audio))
            = messages audio @ [py_strip (read_ocr_engine ra (read_camera ra))]"
    by (simp add: read_process_frame_def Let_def speak_def)
qed

theorem read_process_frame_emission_witness:
  "list_all py_isspace (DummyOcrEngine ''  '' Frame)
   \<and> messages (snd (read_process_frame
        \<lparr>read_camera = Frame, read_ocr_engine = DummyOcrEngine ''  '',
         read_fallback_message = Some ''no text detected''\<rparr> \<lparr>messages = [''forward'']\<rparr>))
       = [''forward'', ''no text detected'']
   \<and> messages (snd (read_process_frame
        \<lparr>read_camera = Frame, read_ocr_engine = DummyOcrEngine ''  '',
         read_fallback_message = Some []\<rparr> \<lparr>messages = [''forward'']\<rparr>))
       = [''forward'']
   \<and> (\<exists>c\<in>set (DummyOcrEngine '' Exit '' Frame). \<not> py_isspace c)
   \<and> messages (snd (read_process_frame
        \<lparr>read_camera = Frame, read_ocr_engine = DummyOcrEngine '' Exit '',
         read_fallback_message = Some ''no text detected''\<rparr> \<lparr>messages = [''forward'']\<rparr>))
       = [''forward'', ''Exit'']"
proof -
  let ?blank = "\<lparr>read_camera = Frame, read_ocr_engine = DummyOcrEngine ''  '',
         read_fallback_message = Some ''no text detected''\<rparr>"
  let ?silent = "\<lparr>read_camera = Frame, read_ocr_engine = DummyOcrEngine ''  '',
         read_fallback_message = Some []\<rparr>"
  let ?sign = "\<lparr>read_camera = Frame, read_ocr_engine = DummyOcrEngine '' Exit '',
         read_fallback_message = Some ''no text detected''\<rparr>"
  let ?audio = "\<lparr>messages = [''forward'']\<rparr>"
  have h1: "\<forall>c\<in>set (DummyOcrEngine ''  '' Frame). py_isspace c"
    by (simp add: DummyOcrEngine_def py_isspace_def)
  have h2: "\<exists>c\<in>set (DummyOcrEngine '' Exit '' Frame). \<not> py_isspace c"
    by (simp add: DummyOcrEngine_def py_isspace_def)
  have s: "py_strip (DummyOcrEngine '' Exit '' Frame) = ''Exit''"
    by (simp add: DummyOcrEngine_def py_strip_def py_isspace_def)
  show ?thesis
    using h1 h2 s
      read_process_frame_emission [of ?blank "''no text detected''" ?audio]
      read_process_frame_emission [of ?silent "''x''" ?audio]
      read_process_frame_emission [of ?sign "''no text detected''" ?audio]
    by (simp add: list_all_iff)
qed

text \<open>
  C9 as stated, for every whitespace-only OCR result, fails for an assistant built
  with \<open>fallback_message=None\<close>: nothing is emitted.
\<close>

theorem no_fallback_configured_counterexample:
  "list_all py_isspace ''   ''
   \<and> messages (snd (read_process_frame
        \<lparr>read_camera = Frame, read_ocr_engine = DummyOcrEngine ''   '',
         read_fallback_message = None\<rparr> \<lparr>messages = []\<rparr>)) = []"
  by (simp add: read_process_frame_def py_strip_def py_isspace_def DummyOcrEngine_def)

section \<open>The demo\<close>

text \<open>
  C7, as amended. \<open>run_demo\<close> on the three transcripts \<open>switch to navigation\<close>,
  \<open>switch to object detection\<close>, \<open>switch to reading\<close> returns an audio log of
  exactly four messages: the direction \<open>forward\<close>, the labels \<open>person\<close> and
  \<open>book\<close>, and the text \<open>Welcome to the campus library\<close>.
\<close>

theorem run_demo_audio_log:
  "run_demo [''switch to navigation'', ''switch to object detection'', ''switch to reading'']
     = Inr [''forward'', ''person'', ''book'', ''Welcome to the campus library'']"
  by code_simp

text \<open>
  C7 as stated has three messages in the log; the log has four.
\<close>

theorem run_demo_four_messages_counterexample:
  "map_sum id length
     (run_demo [''switch to navigation'', ''switch to object detection'', ''switch to reading''])
     = Inr 4"
  by code_simp

end
